theory Spec2Isabelle
  imports Complex_Main
begin

section \<open>Values of the tables\<close>

text \<open>
  A cell identifier is read from the \<open>cell\<close> column of the abundance table and from the
  key columns of the route table: an integer or a string token. Python tests such a value
  for truth in \<open>if st.session_state.origin:\<close>; zero and the empty string are false.
\<close>

datatype cell_id = CInt int | CStr string

fun truthy :: "cell_id \<Rightarrow> bool" where
  "truthy (CInt n) = (n \<noteq> 0)"
| "truthy (CStr s) = (s \<noteq> [])"

text \<open>
  A numeric column holds floats. Only the comparison \<open>> 0\<close> is applied to them, which is
  exact: a finite float is positive iff the number it stands for is, plus infinity is,
  minus infinity and NaN (a missing entry) are not.
\<close>

datatype pyfloat = Finite real | PosInf | NegInf | NaN

fun gt_zero :: "pyfloat \<Rightarrow> bool" where
  "gt_zero (Finite x) = (0 < x)"
| "gt_zero PosInf = True"
| "gt_zero NegInf = False"
| "gt_zero NaN = False"

datatype py_error = IndexError | KeyError

section \<open>The cell table\<close>

text \<open>
  One row of \<open>h3_abundance.csv\<close> after \<open>load_cells\<close>. The geometry is a shapely polygon;
  its type is a parameter, and so are the two geometric tests the script calls on it.
\<close>

record 'g cell_row =
  cell :: cell_id
  geometry :: 'g
  lat :: pyfloat
  lng :: pyfloat
  value_wintering :: pyfloat
  value_breeding :: pyfloat

text \<open>\<open>departure_cells = set(df.loc[df["value_wintering"] > 0, "cell"])\<close>, and its sibling.\<close>

definition departure_cells :: "'g cell_row list \<Rightarrow> cell_id set" where
  "departure_cells df = set (map cell (filter (\<lambda>r. gt_zero (value_wintering r)) df))"

definition destination_cells :: "'g cell_row list \<Rightarrow> cell_id set" where
  "destination_cells df = set (map cell (filter (\<lambda>r. gt_zero (value_breeding r)) df))"

section \<open>The route table\<close>

text \<open>
  One row of the pickled route table: the two key columns, the path as (lat, lon) pairs,
  and the remaining columns, carried as they are.
\<close>

record 'm route =
  departure_cell :: cell_id
  destination_cell :: cell_id
  path :: "(real \<times> real) list"
  meta :: 'm

text \<open>
  \<open>load_routes\<close> returns \<open>df.set_index(["departure_cell", "destination_cell"])\<close>: the rows
  in their order, each under the key made of its two key columns. No row is dropped.
\<close>

definition route_key :: "'m route \<Rightarrow> cell_id \<times> cell_id" where
  "route_key r = (departure_cell r, destination_cell r)"

text \<open>\<open>key in routes_idx.index\<close>\<close>

definition index_contains :: "'m route list \<Rightarrow> cell_id \<times> cell_id \<Rightarrow> bool" where
  "index_contains routes_idx key = (key \<in> set (map route_key routes_idx))"

text \<open>
  \<open>routes_idx.loc[key]\<close> with a full key of a two-level index: KeyError when no row has
  the key; the row itself (a Series) when exactly one row has it; a table (a DataFrame) of
  all the rows under the key, in their order, when several rows have it. The rest of the
  script reads the result as one row (\<open>route_row["path"]\<close>, \<open>route_row.to_frame()\<close>) and has
  no branch for a table.
\<close>

datatype 'm loc_result = Series "'m route" | Frame "'m route list"

definition loc :: "'m route list \<Rightarrow> cell_id \<times> cell_id \<Rightarrow> py_error + 'm loc_result" where
  "loc routes_idx key =
     (case filter (\<lambda>r. route_key r = key) routes_idx of
        [] \<Rightarrow> Inl KeyError
      | [r] \<Rightarrow> Inr (Series r)
      | r # r' # rs \<Rightarrow> Inr (Frame (r # r' # rs)))"

text \<open>
  The lookup of the script:
  \<^verbatim>\<open>
  if key in routes_idx.index:
      route_row = routes_idx.loc[key]
  \<close>
  with \<open>route_row\<close> left at None otherwise.
\<close>

definition routes_get ::
  "'m route list \<Rightarrow> cell_id \<times> cell_id \<Rightarrow> py_error + 'm loc_result option" where
  "routes_get routes_idx key =
     (if index_contains routes_idx key then
        (case loc routes_idx key of Inl e \<Rightarrow> Inl e | Inr row \<Rightarrow> Inr (Some row))
      else Inr None)"

section \<open>Session state\<close>

record session_state =
  origin :: "cell_id option"
  target :: "cell_id option"

text \<open>What one handler does to the run of the script besides changing the state.\<close>

datatype outcome = Rerun | Warning string | NoAction

text \<open>
  The Reset button:
  \<^verbatim>\<open>
  st.session_state.origin = None
  st.session_state.target = None
  st.rerun()
  \<close>
\<close>

definition reset :: "session_state \<Rightarrow> session_state \<times> outcome" where
  "reset s = (s\<lparr>origin := None, target := None\<rparr>, Rerun)"

text \<open>\<open>if st.session_state.origin:\<close> is false on None and on a false value.\<close>

fun slot_truthy :: "cell_id option \<Rightarrow> bool" where
  "slot_truthy None = False"
| "slot_truthy (Some c) = truthy c"

text \<open>
  \<open>draw_h3(cell, color)\<close> adds the geometry of the first row with that cell id to the
  map, and nothing when there is none. The result lists what is added.
\<close>

definition draw_h3 :: "'g cell_row list \<Rightarrow> cell_id \<Rightarrow> string \<Rightarrow> ('g \<times> string) list" where
  "draw_h3 df c color =
     (case filter (\<lambda>r. cell r = c) df of [] \<Rightarrow> [] | r # _ \<Rightarrow> [(geometry r, color)])"

text \<open>
  \<^verbatim>\<open>
  if st.session_state.origin:
      draw_h3(st.session_state.origin, "green")
  if st.session_state.target:
      draw_h3(st.session_state.target, "red")
  \<close>
\<close>

definition draw_selected :: "'g cell_row list \<Rightarrow> session_state \<Rightarrow> ('g \<times> string) list" where
  "draw_selected df s =
     (case origin s of
        Some c \<Rightarrow> if slot_truthy (origin s) then draw_h3 df c ''green'' else []
      | None \<Rightarrow> [])
     @ (case target s of
        Some c \<Rightarrow> if slot_truthy (target s) then draw_h3 df c ''red'' else []
      | None \<Rightarrow> [])"

text \<open>
  \<^verbatim>\<open>
  route_row = None
  if st.session_state.origin and st.session_state.target:
      key = (st.session_state.origin, st.session_state.target)
      if key in routes_idx.index:
          route_row = routes_idx.loc[key]
  \<close>
\<close>

definition route_row ::
  "'m route list \<Rightarrow> session_state \<Rightarrow> py_error + 'm loc_result option" where
  "route_row routes_idx s =
     (if slot_truthy (origin s) \<and> slot_truthy (target s) then
        (case (origin s, target s) of
           (Some a, Some b) \<Rightarrow> routes_get routes_idx (a, b)
         | _ \<Rightarrow> Inr None)
      else Inr None)"

section \<open>The click handler\<close>

text \<open>
  \<open>df.iloc[idx]\<close>: the rows at the given positions, in the order of \<open>idx\<close>; a position
  past the end raises IndexError.
\<close>

definition iloc :: "'a list \<Rightarrow> nat list \<Rightarrow> py_error + 'a list" where
  "iloc df idx =
     (if list_all (\<lambda>i. i < length df) idx then Inr (map (\<lambda>i. df ! i) idx) else Inl IndexError)"

text \<open>
  \<^verbatim>\<open>
  idx = list(df.sindex.intersection(point.bounds))
  candidates = df.iloc[idx]
  hit = candidates[candidates.contains(point)]
  if not hit.empty:
      cell = hit.iloc[0]["cell"]
  \<close>
  \<open>idx\<close> is what the spatial index answers; \<open>contains\<close> is shapely's test of a point
  against a polygon, true for a point of the polygon's interior.
\<close>

definition resolvePoint ::
  "('g \<Rightarrow> real \<times> real \<Rightarrow> bool) \<Rightarrow> 'g cell_row list \<Rightarrow> nat list \<Rightarrow> real \<times> real
     \<Rightarrow> py_error + cell_id option" where
  "resolvePoint contains df idx point =
     (case iloc df idx of
        Inl e \<Rightarrow> Inl e
      | Inr candidates \<Rightarrow>
          (case filter (\<lambda>r. contains (geometry r) point) candidates of
             [] \<Rightarrow> Inr None
           | r # _ \<Rightarrow> Inr (Some (cell r))))"

text \<open>
  What the spatial index is documented to answer for the bounds of a point: the positions
  of the rows whose envelope meets them, in an order of its own.
\<close>

definition sindex_intersection ::
  "('g \<Rightarrow> real \<times> real \<Rightarrow> bool) \<Rightarrow> 'g cell_row list \<Rightarrow> nat list \<Rightarrow> real \<times> real \<Rightarrow> bool" where
  "sindex_intersection bounds_hit df idx point =
     (set idx = set (filter (\<lambda>i. bounds_hit (geometry (df ! i)) point) [0..<length df]))"

text \<open>A polygon lies within its envelope.\<close>

definition envelope_covers ::
  "('g \<Rightarrow> real \<times> real \<Rightarrow> bool) \<Rightarrow> ('g \<Rightarrow> real \<times> real \<Rightarrow> bool) \<Rightarrow> 'g cell_row list
     \<Rightarrow> real \<times> real \<Rightarrow> bool" where
  "envelope_covers contains bounds_hit df point =
     list_all (\<lambda>r. contains (geometry r) point \<longrightarrow> bounds_hit (geometry r) point) df"

text \<open>
  The selection branch:
  \<^verbatim>\<open>
  if st.session_state.origin is None:
      if cell in departure_cells:
          st.session_state.origin = cell
          st.rerun()
      else:
          st.warning("Not a valid departure cell")
  elif st.session_state.target is None:
      if cell in destination_cells:
          st.session_state.target = cell
          st.rerun()
      else:
          st.warning("Not a valid destination cell")
  \<close>
\<close>

definition trySelect ::
  "cell_id set \<Rightarrow> cell_id set \<Rightarrow> session_state \<Rightarrow> cell_id \<Rightarrow> session_state \<times> outcome" where
  "trySelect dep dst s c =
     (if origin s = None then
        (if c \<in> dep then (s\<lparr>origin := Some c\<rparr>, Rerun)
         else (s, Warning ''Not a valid departure cell''))
      else if target s = None then
        (if c \<in> dst then (s\<lparr>target := Some c\<rparr>, Rerun)
         else (s, Warning ''Not a valid destination cell''))
      else (s, NoAction))"

text \<open>
  The whole handler, from \<open>map_data.get("last_clicked")\<close>: a click is a pair (lat, lng),
  the point is built as \<open>Point(lon, lat)\<close>, and \<open>sindex\<close> is the query of the spatial index.
\<close>

definition last_clicked ::
  "('g \<Rightarrow> real \<times> real \<Rightarrow> bool) \<Rightarrow> (real \<times> real \<Rightarrow> nat list) \<Rightarrow> 'g cell_row list
     \<Rightarrow> session_state \<Rightarrow> (real \<times> real) option \<Rightarrow> py_error + session_state \<times> outcome" where
  "last_clicked contains sindex df s click =
     (case click of
        None \<Rightarrow> Inr (s, NoAction)
      | Some (click_lat, click_lon) \<Rightarrow>
          (case resolvePoint contains df (sindex (click_lon, click_lat)) (click_lon, click_lat) of
             Inl e \<Rightarrow> Inl e
           | Inr None \<Rightarrow> Inr (s, NoAction)
           | Inr (Some c) \<Rightarrow> Inr (trySelect (departure_cells df) (destination_cells df) s c)))"

text \<open>A run of clicks that all land in cells: the state after the last one.\<close>

fun select_all :: "cell_id set \<Rightarrow> cell_id set \<Rightarrow> session_state \<Rightarrow> cell_id list \<Rightarrow> session_state" where
  "select_all dep dst s [] = s"
| "select_all dep dst s (c # cs) = select_all dep dst (fst (trySelect dep dst s c)) cs"

section \<open>Example tables\<close>

text \<open>
  For the examples a polygon is an axis-parallel box, given by its lower left and upper
  right corners as (lon, lat): a point is contained when it lies strictly inside, and the
  envelope of a box is the closed box.
\<close>

type_synonym box = "(real \<times> real) \<times> (real \<times> real)"

fun box_contains :: "box \<Rightarrow> real \<times> real \<Rightarrow> bool" where
  "box_contains ((x0, y0), (x1, y1)) (x, y) = (x0 < x \<and> x < x1 \<and> y0 < y \<and> y < y1)"

fun box_bounds_hit :: "box \<Rightarrow> real \<times> real \<Rightarrow> bool" where
  "box_bounds_hit ((x0, y0), (x1, y1)) (x, y) = (x0 \<le> x \<and> x \<le> x1 \<and> y0 \<le> y \<and> y \<le> y1)"

text \<open>
  Cell A winters only, cell B breeds only, cell C does both; A and B share an edge.
\<close>

definition scenario_cells :: "box cell_row list" where
  "scenario_cells =
     [\<lparr>cell = CStr ''A'', geometry = ((-86, 39), (-84, 41)), lat = Finite 40, lng = Finite (-85),
        value_wintering = Finite 5, value_breeding = Finite 0\<rparr>,
      \<lparr>cell = CStr ''B'', geometry = ((-84, 39), (-82, 41)), lat = Finite 40, lng = Finite (-83),
        value_wintering = Finite 0, value_breeding = Finite 3\<rparr>,
      \<lparr>cell = CStr ''C'', geometry = ((-86, 41), (-84, 43)), lat = Finite 42, lng = Finite (-85),
        value_wintering = Finite 2, value_breeding = Finite 1\<rparr>]"

definition route_AB :: "unit route" where
  "route_AB = \<lparr>departure_cell = CStr ''A'', destination_cell = CStr ''B'',
                path = [(40, -85), (41, -86)], meta = ()\<rparr>"

definition route_AB_again :: "unit route" where
  "route_AB_again = \<lparr>departure_cell = CStr ''A'', destination_cell = CStr ''B'',
                      path = [(40, -85), (42, -87), (41, -86)], meta = ()\<rparr>"

definition route_0_5 :: "unit route" where
  "route_0_5 = \<lparr>departure_cell = CInt 0, destination_cell = CInt 5,
                 path = [(40, -85), (41, -86)], meta = ()\<rparr>"

section \<open>Selection\<close>

lemma trySelect_complete:
  "origin s \<noteq> None \<Longrightarrow> target s \<noteq> None \<Longrightarrow> trySelect dep dst s c = (s, NoAction)"
  by (simp add: trySelect_def)

lemma trySelect_origin_kept:
  "origin s \<noteq> None \<Longrightarrow> origin (fst (trySelect dep dst s c)) = origin s"
  by (simp add: trySelect_def)

lemma select_all_origin_kept:
  "origin s \<noteq> None \<Longrightarrow> origin (select_all dep dst s cs) = origin s"
proof (induction cs arbitrary: s)
  case Nil
  then show ?case by simp
next
  case (Cons c cs)
  have kept: "origin (fst (trySelect dep dst s c)) = origin s"
    using Cons.prems by (rule trySelect_origin_kept)
  with Cons.prems have "origin (fst (trySelect dep dst s c)) \<noteq> None" by simp
  then have "origin (select_all dep dst (fst (trySelect dep dst s c)) cs)
      = origin (fst (trySelect dep dst s c))"
    by (rule Cons.IH)
  with kept show ?case by simp
qed

lemma select_all_complete:
  "origin s \<noteq> None \<Longrightarrow> target s \<noteq> None \<Longrightarrow> select_all dep dst s cs = s"
  by (induction cs) (simp_all add: trySelect_complete)

lemma trySelect_slots_ordered:
  "(target s \<noteq> None \<longrightarrow> origin s \<noteq> None)
   \<Longrightarrow> target (fst (trySelect dep dst s c)) \<noteq> None
   \<Longrightarrow> origin (fst (trySelect dep dst s c)) \<noteq> None"
  by (auto simp: trySelect_def split: if_splits)

lemma select_all_slots_ordered:
  "(target s \<noteq> None \<longrightarrow> origin s \<noteq> None)
   \<Longrightarrow> target (select_all dep dst s cs) \<noteq> None
   \<Longrightarrow> origin (select_all dep dst s cs) \<noteq> None"
proof (induction cs arbitrary: s)
  case Nil
  then show ?case by simp
next
  case (Cons c cs)
  let ?s' = "fst (trySelect dep dst s c)"
  have "target ?s' \<noteq> None \<longrightarrow> origin ?s' \<noteq> None"
    using Cons.prems(1) trySelect_slots_ordered [of s dep dst c] by blast
  moreover have "target (select_all dep dst ?s' cs) \<noteq> None"
    using Cons.prems(2) by simp
  ultimately have "origin (select_all dep dst ?s' cs) \<noteq> None"
    by (rule Cons.IH)
  then show ?case by simp
qed

text \<open>
  C3. With the origin unset, a cell that is not a departure cell is rejected with the
  warning "Not a valid departure cell"; with the origin set and the target unset, a cell
  that is not a destination cell is rejected with the warning "Not a valid destination
  cell". In both cases the state, origin and target, is returned as it was.
\<close>

theorem trySelect_wrong_role_rejected:
  "(origin s = None \<and> c \<notin> dep \<longrightarrow>
      trySelect dep dst s c = (s, Warning ''Not a valid departure cell''))
   \<and> (origin s \<noteq> None \<and> target s = None \<and> c \<notin> dst \<longrightarrow>
      trySelect dep dst s c = (s, Warning ''Not a valid destination cell''))"
  by (simp add: trySelect_def)

theorem trySelect_wrong_role_rejected_witness:
  "trySelect {CStr ''A''} {CStr ''B''} \<lparr>origin = None, target = None\<rparr> (CStr ''B'')
     = (\<lparr>origin = None, target = None\<rparr>, Warning ''Not a valid departure cell'')
   \<and> trySelect {CStr ''A''} {CStr ''B''} \<lparr>origin = Some (CStr ''A''), target = None\<rparr> (CStr ''A'')
     = (\<lparr>origin = Some (CStr ''A''), target = None\<rparr>, Warning ''Not a valid destination cell'')"
  using trySelect_wrong_role_rejected
      [of "\<lparr>origin = None, target = None\<rparr>" "CStr ''B''" "{CStr ''A''}" "{CStr ''B''}"]
    trySelect_wrong_role_rejected
      [of "\<lparr>origin = Some (CStr ''A''), target = None\<rparr>" "CStr ''A''" "{CStr ''A''}" "{CStr ''B''}"]
  by simp

text \<open>
  C4. With both origin and target set, a click on any cell changes nothing and reports
  nothing, and so does any run of clicks, on one cell repeated or on different cells.
\<close>

theorem trySelect_complete_noop:
  "origin s \<noteq> None \<and> target s \<noteq> None \<longrightarrow>
     trySelect dep dst s c = (s, NoAction)
     \<and> select_all dep dst s (replicate n c) = s
     \<and> select_all dep dst s cs = s"
  by (simp add: trySelect_complete select_all_complete)

theorem trySelect_complete_noop_witness:
  "trySelect {CStr ''A''} {CStr ''B''} \<lparr>origin = Some (CStr ''A''), target = Some (CStr ''B'')\<rparr> (CStr ''A'')
     = (\<lparr>origin = Some (CStr ''A''), target = Some (CStr ''B'')\<rparr>, NoAction)
   \<and> select_all {CStr ''A''} {CStr ''B''} \<lparr>origin = Some (CStr ''A''), target = Some (CStr ''B'')\<rparr>
        (replicate 2 (CStr ''A''))
     = \<lparr>origin = Some (CStr ''A''), target = Some (CStr ''B'')\<rparr>
   \<and> select_all {CStr ''A''} {CStr ''B''} \<lparr>origin = Some (CStr ''A''), target = Some (CStr ''B'')\<rparr>
        [CStr ''B'', CStr ''A'']
     = \<lparr>origin = Some (CStr ''A''), target = Some (CStr ''B'')\<rparr>"
  using trySelect_complete_noop
      [of "\<lparr>origin = Some (CStr ''A''), target = Some (CStr ''B'')\<rparr>"
          "{CStr ''A''}" "{CStr ''B''}" "CStr ''A''" 2 "[CStr ''B'', CStr ''A'']"]
  by simp

text \<open>
  C7. Reset, from any state, leaves origin and target both None and reruns the script;
  in the state after it no route is looked up: \<open>route_row\<close> stays None.
\<close>

theorem reset_clears_selection:
  "reset s = (\<lparr>origin = None, target = None\<rparr>, Rerun)
   \<and> route_row routes_idx (fst (reset s)) = Inr None"
  by (simp add: reset_def route_row_def)

text \<open>
  C8. A click never changes an origin that is set, neither one click nor any run of
  clicks; a click changes the target only in a state whose origin is set; and from a
  state where a set target comes with a set origin, every run of clicks leads to such a
  state.
\<close>

theorem selection_invariant:
  "(origin s \<noteq> None \<longrightarrow>
      origin (fst (trySelect dep dst s c)) = origin s
      \<and> origin (select_all dep dst s cs) = origin s)
   \<and> (target (fst (trySelect dep dst s c)) \<noteq> target s \<longrightarrow> origin s \<noteq> None)
   \<and> ((target s \<noteq> None \<longrightarrow> origin s \<noteq> None) \<longrightarrow>
      (target (select_all dep dst s cs) \<noteq> None \<longrightarrow> origin (select_all dep dst s cs) \<noteq> None))"
proof (intro conjI impI)
  assume "origin s \<noteq> None"
  then show "origin (fst (trySelect dep dst s c)) = origin s"
    by (rule trySelect_origin_kept)
next
  assume "origin s \<noteq> None"
  then show "origin (select_all dep dst s cs) = origin s"
    by (rule select_all_origin_kept)
next
  assume "target (fst (trySelect dep dst s c)) \<noteq> target s"
  then show "origin s \<noteq> None"
    by (auto simp: trySelect_def split: if_splits)
next
  assume "target s \<noteq> None \<longrightarrow> origin s \<noteq> None"
    and "target (select_all dep dst s cs) \<noteq> None"
  then show "origin (select_all dep dst s cs) \<noteq> None"
    by (rule select_all_slots_ordered)
qed

theorem selection_invariant_witness:
  "origin \<lparr>origin = Some (CStr ''A''), target = None\<rparr> \<noteq> None
   \<and> origin (fst (trySelect {CStr ''A'', CStr ''C''} {CStr ''B''}
       \<lparr>origin = Some (CStr ''A''), target = None\<rparr> (CStr ''B''))) = Some (CStr ''A'')
   \<and> target (fst (trySelect {CStr ''A'', CStr ''C''} {CStr ''B''}
       \<lparr>origin = Some (CStr ''A''), target = None\<rparr> (CStr ''B'')))
     \<noteq> target \<lparr>origin = Some (CStr ''A''), target = None\<rparr>
   \<and> origin (select_all {CStr ''A'', CStr ''C''} {CStr ''B''}
       \<lparr>origin = Some (CStr ''A''), target = None\<rparr> [CStr ''C'', CStr ''B'', CStr ''C''])
     = Some (CStr ''A'')
   \<and> target (select_all {CStr ''A'', CStr ''C''} {CStr ''B''}
       \<lparr>origin = Some (CStr ''A''), target = None\<rparr> [CStr ''C'', CStr ''B'', CStr ''C''])
     \<noteq> None"
  using selection_invariant
      [of "\<lparr>origin = Some (CStr ''A''), target = None\<rparr>" "{CStr ''A'', CStr ''C''}" "{CStr ''B''}"
          "CStr ''B''" "[CStr ''C'', CStr ''B'', CStr ''C'']"]
  by (simp add: trySelect_def)

text \<open>
  C10. With the origin set to a cell and the target unset, a click on that same cell sets
  the target to it whenever the cell is a destination cell: origin and target are then
  the same cell, and the script reruns.
\<close>

theorem self_route_permitted:
  "origin s = Some c \<and> target s = None \<and> c \<in> dst \<longrightarrow>
     trySelect dep dst s c = (s\<lparr>target := Some c\<rparr>, Rerun)
     \<and> origin (fst (trySelect dep dst s c)) = Some c
     \<and> target (fst (trySelect dep dst s c)) = Some c"
  by (simp add: trySelect_def)

theorem self_route_permitted_witness:
  "trySelect {CStr ''A''} {CStr ''A'', CStr ''B''} \<lparr>origin = Some (CStr ''A''), target = None\<rparr> (CStr ''A'')
     = (\<lparr>origin = Some (CStr ''A''), target = Some (CStr ''A'')\<rparr>, Rerun)"
  using self_route_permitted
      [of "\<lparr>origin = Some (CStr ''A''), target = None\<rparr>" "CStr ''A''" "{CStr ''A'', CStr ''B''}" "{CStr ''A''}"]
  by simp

section \<open>Roles\<close>

lemma departure_cells_iff:
  "c \<in> departure_cells df \<longleftrightarrow> (\<exists>r\<in>set df. cell r = c \<and> gt_zero (value_wintering r))"
  by (auto simp: departure_cells_def)

lemma destination_cells_iff:
  "c \<in> destination_cells df \<longleftrightarrow> (\<exists>r\<in>set df. cell r = c \<and> gt_zero (value_breeding r))"
  by (auto simp: destination_cells_def)

lemma unique_cell_row:
  "distinct (map cell df) \<Longrightarrow> r \<in> set df \<Longrightarrow> r' \<in> set df \<Longrightarrow> cell r' = cell r \<Longrightarrow> r' = r"
  by (auto simp: distinct_map dest: inj_onD)

text \<open>
  C2. A cell id is a departure cell iff some row with that id has a wintering value above
  zero, and a destination cell iff some row with that id has a breeding value above
  zero. In a table whose cell ids are unique this reads row by row: the id of a row is a
  departure cell iff the row's wintering value is above zero, a destination cell iff its
  breeding value is above zero, and it is in both sets when both values are.
\<close>

theorem classify_by_positive_value:
  "(c \<in> departure_cells df \<longleftrightarrow> (\<exists>r\<in>set df. cell r = c \<and> gt_zero (value_wintering r)))
   \<and> (c \<in> destination_cells df \<longleftrightarrow> (\<exists>r\<in>set df. cell r = c \<and> gt_zero (value_breeding r)))
   \<and> (distinct (map cell df) \<and> r \<in> set df \<longrightarrow>
        (cell r \<in> departure_cells df \<longleftrightarrow> gt_zero (value_wintering r))
      \<and> (cell r \<in> destination_cells df \<longleftrightarrow> gt_zero (value_breeding r))
      \<and> (gt_zero (value_wintering r) \<and> gt_zero (value_breeding r) \<longrightarrow>
           cell r \<in> departure_cells df \<and> cell r \<in> destination_cells df))"
proof (intro conjI impI)
  show "c \<in> departure_cells df \<longleftrightarrow> (\<exists>r\<in>set df. cell r = c \<and> gt_zero (value_wintering r))"
    by (rule departure_cells_iff)
  show "c \<in> destination_cells df \<longleftrightarrow> (\<exists>r\<in>set df. cell r = c \<and> gt_zero (value_breeding r))"
    by (rule destination_cells_iff)
next
  assume h: "distinct (map cell df) \<and> r \<in> set df"
  then show "cell r \<in> departure_cells df \<longleftrightarrow> gt_zero (value_wintering r)"
    using unique_cell_row [of df r] by (auto simp: departure_cells_iff)
  from h show "cell r \<in> destination_cells df \<longleftrightarrow> gt_zero (value_breeding r)"
    using unique_cell_row [of df r] by (auto simp: destination_cells_iff)
  assume "gt_zero (value_wintering r) \<and> gt_zero (value_breeding r)"
  with h show "cell r \<in> departure_cells df" "cell r \<in> destination_cells df"
    by (auto simp: departure_cells_iff destination_cells_iff)
qed

theorem classify_by_positive_value_witness:
  "distinct (map cell scenario_cells)
   \<and> scenario_cells ! 2 \<in> set scenario_cells
   \<and> cell (scenario_cells ! 2) = CStr ''C''
   \<and> gt_zero (value_wintering (scenario_cells ! 2))
   \<and> gt_zero (value_breeding (scenario_cells ! 2))
   \<and> CStr ''C'' \<in> departure_cells scenario_cells
   \<and> CStr ''C'' \<in> destination_cells scenario_cells
   \<and> CStr ''A'' \<in> departure_cells scenario_cells
   \<and> CStr ''A'' \<notin> destination_cells scenario_cells"
proof -
  have d: "distinct (map cell scenario_cells)"
    by (simp add: scenario_cells_def)
  have m: "scenario_cells ! 2 \<in> set scenario_cells"
    by (simp add: scenario_cells_def)
  have v: "cell (scenario_cells ! 2) = CStr ''C''"
    "gt_zero (value_wintering (scenario_cells ! 2))"
    "gt_zero (value_breeding (scenario_cells ! 2))"
    by (simp_all add: scenario_cells_def)
  have a: "(\<exists>r\<in>set scenario_cells. cell r = CStr ''A'' \<and> gt_zero (value_wintering r))"
    "\<not> (\<exists>r\<in>set scenario_cells. cell r = CStr ''A'' \<and> gt_zero (value_breeding r))"
    by (simp_all add: scenario_cells_def)
  show ?thesis
    using d m v a classify_by_positive_value [of "CStr ''A''" scenario_cells "scenario_cells ! 2"]
    by simp
qed

section \<open>Route lookup\<close>

lemma filter_key_nonempty:
  "r \<in> set routes_idx \<Longrightarrow> filter (\<lambda>x. route_key x = route_key r) routes_idx \<noteq> []"
  by (auto simp: filter_empty_conv)

lemma filter_key_once:
  assumes "r \<in> set routes_idx"
    and "length (filter (\<lambda>x. route_key x = route_key r) routes_idx) = 1"
  shows "filter (\<lambda>x. route_key x = route_key r) routes_idx = [r]"
proof -
  obtain x where x: "filter (\<lambda>x. route_key x = route_key r) routes_idx = [x]"
    using assms(2) by (auto simp: length_Suc_conv)
  have "r \<in> set (filter (\<lambda>x. route_key x = route_key r) routes_idx)"
    using assms(1) by simp
  with x show ?thesis by simp
qed

lemma routes_get_absent:
  "\<forall>r\<in>set routes_idx. \<not> (departure_cell r = a \<and> destination_cell r = b)
   \<Longrightarrow> routes_get routes_idx (a, b) = Inr None"
  by (auto simp: routes_get_def index_contains_def route_key_def)

lemma routes_get_present:
  assumes "r \<in> set routes_idx"
  shows "\<exists>row. routes_get routes_idx (route_key r) = Inr (Some row)"
proof -
  have c: "index_contains routes_idx (route_key r)"
    using assms by (auto simp: index_contains_def)
  obtain y ys where f: "filter (\<lambda>x. route_key x = route_key r) routes_idx = y # ys"
    using filter_key_nonempty [OF assms]
    by (cases "filter (\<lambda>x. route_key x = route_key r) routes_idx") auto
  show ?thesis
    using c f by (cases ys) (simp_all add: routes_get_def loc_def)
qed

lemma routes_get_once:
  assumes "r \<in> set routes_idx"
    and "length (filter (\<lambda>x. route_key x = route_key r) routes_idx) = 1"
  shows "routes_get routes_idx (route_key r) = Inr (Some (Series r))"
proof -
  have c: "index_contains routes_idx (route_key r)"
    using assms(1) by (auto simp: index_contains_def)
  show ?thesis
    using c filter_key_once [OF assms] by (simp add: routes_get_def loc_def)
qed

text \<open>
  C5. When no row of the route table has departure cell a and destination cell b, the
  lookup of (a, b) gives None, as a value and without an error, and so does \<open>route_row\<close>
  in a state with origin a and target b. A row for the reversed pair (b, a) does not
  change this: the lookup of (b, a) then gives a result while that of (a, b) gives None.
\<close>

theorem routes_get_exact_key_only:
  "(\<forall>r\<in>set routes_idx. \<not> (departure_cell r = a \<and> destination_cell r = b)) \<longrightarrow>
      routes_get routes_idx (a, b) = Inr None
      \<and> (origin s = Some a \<and> target s = Some b \<longrightarrow> route_row routes_idx s = Inr None)
      \<and> ((\<exists>r\<in>set routes_idx. departure_cell r = b \<and> destination_cell r = a) \<longrightarrow>
           (\<exists>row. routes_get routes_idx (b, a) = Inr (Some row)))"
proof (intro impI conjI)
  assume h: "\<forall>r\<in>set routes_idx. \<not> (departure_cell r = a \<and> destination_cell r = b)"
  then show g: "routes_get routes_idx (a, b) = Inr None"
    by (rule routes_get_absent)
  show "route_row routes_idx s = Inr None" if "origin s = Some a \<and> target s = Some b"
    using that g by (simp add: route_row_def)
  assume "\<exists>r\<in>set routes_idx. departure_cell r = b \<and> destination_cell r = a"
  then obtain r where r: "r \<in> set routes_idx" "route_key r = (b, a)"
    by (auto simp: route_key_def)
  show "\<exists>row. routes_get routes_idx (b, a) = Inr (Some row)"
    using routes_get_present [OF r(1)] r(2) by simp
qed

theorem routes_get_exact_key_only_witness:
  "route_key route_AB = (CStr ''A'', CStr ''B'')
   \<and> routes_get [route_AB] (CStr ''B'', CStr ''A'') = Inr None
   \<and> route_row [route_AB] \<lparr>origin = Some (CStr ''B''), target = Some (CStr ''A'')\<rparr> = Inr None
   \<and> (\<exists>row. routes_get [route_AB] (CStr ''A'', CStr ''B'') = Inr (Some row))"
proof -
  have k: "route_key route_AB = (CStr ''A'', CStr ''B'')"
    by (simp add: route_key_def route_AB_def)
  have a: "\<forall>r\<in>set [route_AB]. \<not> (departure_cell r = CStr ''B'' \<and> destination_cell r = CStr ''A'')"
    by (simp add: route_AB_def)
  have b: "\<exists>r\<in>set [route_AB]. departure_cell r = CStr ''A'' \<and> destination_cell r = CStr ''B''"
    by (simp add: route_AB_def)
  show ?thesis
    using k a b routes_get_exact_key_only
      [of "[route_AB]" "CStr ''B''" "CStr ''A''"
          "\<lparr>origin = Some (CStr ''B''), target = Some (CStr ''A'')\<rparr>"]
    by simp
qed

text \<open>
  C6, as the claim states it, fails on a duplicated key: the lookup gives the table of both
  rows under the key, not the last row alone.
\<close>

theorem routes_get_last_wins_counterexample:
  "routes_get [route_AB, route_AB_again] (CStr ''A'', CStr ''B'')
     = Inr (Some (Frame [route_AB, route_AB_again]))
   \<and> routes_get [route_AB, route_AB_again] (CStr ''A'', CStr ''B'')
     \<noteq> Inr (Some (Series route_AB_again))"
  by (simp add: routes_get_def loc_def index_contains_def route_key_def
      route_AB_def route_AB_again_def)

text \<open>
  C6, amended. For a row r of the route table whose key occurs once in the table, the
  lookup of the key of r gives r itself, whatever other rows the table holds, rows with
  duplicated keys among them.
\<close>

theorem routes_get_roundtrip:
  "r \<in> set routes_idx \<and> length (filter (\<lambda>x. route_key x = route_key r) routes_idx) = 1 \<longrightarrow>
     routes_get routes_idx (departure_cell r, destination_cell r) = Inr (Some (Series r))"
proof
  assume h: "r \<in> set routes_idx
    \<and> length (filter (\<lambda>x. route_key x = route_key r) routes_idx) = 1"
  have k: "(departure_cell r, destination_cell r) = route_key r"
    by (simp add: route_key_def)
  from h have "routes_get routes_idx (route_key r) = Inr (Some (Series r))"
    by (simp add: routes_get_once)
  with k show "routes_get routes_idx (departure_cell r, destination_cell r) = Inr (Some (Series r))"
    by simp
qed

theorem routes_get_roundtrip_witness:
  "route_key route_0_5 = (CInt 0, CInt 5)
   \<and> route_0_5 \<in> set [route_AB, route_0_5, route_AB_again]
   \<and> length (filter (\<lambda>x. route_key x = route_key route_0_5)
        [route_AB, route_0_5, route_AB_again]) = 1
   \<and> routes_get [route_AB, route_0_5, route_AB_again] (CInt 0, CInt 5)
       = Inr (Some (Series route_0_5))
   \<and> routes_get [route_AB] (CStr ''A'', CStr ''B'') = Inr (Some (Series route_AB))"
proof -
  have k: "route_key route_AB = (CStr ''A'', CStr ''B'')"
    "route_key route_AB_again = (CStr ''A'', CStr ''B'')"
    "route_key route_0_5 = (CInt 0, CInt 5)"
    "departure_cell route_AB = CStr ''A''" "destination_cell route_AB = CStr ''B''"
    "departure_cell route_0_5 = CInt 0" "destination_cell route_0_5 = CInt 5"
    by (simp_all add: route_key_def route_AB_def route_AB_again_def route_0_5_def)
  show ?thesis
    using routes_get_roundtrip [of route_0_5 "[route_AB, route_0_5, route_AB_again]"]
      routes_get_roundtrip [of route_AB "[route_AB]"]
    by (simp add: k)
qed

section \<open>Truth of a selected cell id\<close>

text \<open>
  C9. A click stores any departure cell as origin, whatever its truth value. In a state
  with both slots set where the origin or the target is a false value (0 or the empty
  string), \<open>route_row\<close> is None whatever the route table holds, the false slot's cell is
  not drawn, and a further click does nothing, as in any state with both slots set.
\<close>

theorem falsy_cell_id_hides_route:
  "(origin s0 = None \<and> a \<in> dep \<longrightarrow> origin (fst (trySelect dep dst s0 a)) = Some a)
   \<and> (origin s = Some a \<and> target s = Some b \<and> (\<not> truthy a \<or> \<not> truthy b) \<longrightarrow>
       route_row routes_idx s = Inr None
       \<and> (\<not> truthy a \<longrightarrow> (\<forall>g. (g, ''green'') \<notin> set (draw_selected df s)))
       \<and> (\<not> truthy b \<longrightarrow> (\<forall>g. (g, ''red'') \<notin> set (draw_selected df s)))
       \<and> trySelect dep dst s c = (s, NoAction))"
  by (auto simp: route_row_def draw_selected_def draw_h3_def trySelect_def split: list.splits)

theorem falsy_cell_id_hides_route_witness:
  "origin (fst (trySelect {CInt 0} {CInt 5} \<lparr>origin = None, target = None\<rparr> (CInt 0))) = Some (CInt 0)
   \<and> \<not> truthy (CInt 0)
   \<and> route_row [route_0_5] \<lparr>origin = Some (CInt 0), target = Some (CInt 5)\<rparr> = Inr None
   \<and> routes_get [route_0_5] (CInt 0, CInt 5) = Inr (Some (Series route_0_5))
   \<and> (\<forall>g. (g, ''green'') \<notin> set (draw_selected scenario_cells
         \<lparr>origin = Some (CInt 0), target = Some (CInt 5)\<rparr>))"
proof -
  have g: "routes_get [route_0_5] (CInt 0, CInt 5) = Inr (Some (Series route_0_5))"
    by (simp add: routes_get_def loc_def index_contains_def route_key_def route_0_5_def)
  show ?thesis
    using g falsy_cell_id_hides_route
      [of "\<lparr>origin = None, target = None\<rparr>" "CInt 0" "{CInt 0}" "{CInt 5}"
          "\<lparr>origin = Some (CInt 0), target = Some (CInt 5)\<rparr>" "CInt 5" "[route_0_5]"
          scenario_cells "CInt 0"]
    by simp
qed

section \<open>Point to cell\<close>

lemma sindex_in_range:
  "sindex_intersection bounds_hit df idx p \<Longrightarrow> list_all (\<lambda>i. i < length df) idx"
  by (auto simp: sindex_intersection_def list_all_iff)

lemma resolvePoint_filter:
  assumes "sindex_intersection bounds_hit df idx p"
  shows "resolvePoint contains df idx p =
     (case filter (\<lambda>i. contains (geometry (df ! i)) p) idx of
        [] \<Rightarrow> Inr None
      | i # _ \<Rightarrow> Inr (Some (cell (df ! i))))"
proof -
  have "iloc df idx = Inr (map (\<lambda>i. df ! i) idx)"
    using sindex_in_range [OF assms] by (simp add: iloc_def)
  then show ?thesis
    by (simp add: resolvePoint_def filter_map comp_def split: list.splits)
qed

lemma candidate_of_containing_row:
  assumes "sindex_intersection bounds_hit df idx p"
    and "envelope_covers contains bounds_hit df p"
    and "i < length df" and "contains (geometry (df ! i)) p"
  shows "i \<in> set idx"
proof -
  have "df ! i \<in> set df" using assms(3) by simp
  with assms(2,4) have "bounds_hit (geometry (df ! i)) p"
    by (auto simp: envelope_covers_def list_all_iff)
  with assms(1,3) show ?thesis
    by (simp add: sindex_intersection_def)
qed

lemma resolvePoint_unique_hit:
  assumes sx: "sindex_intersection bounds_hit df idx p"
    and env: "envelope_covers contains bounds_hit df p"
    and one: "i < length df \<and> contains (geometry (df ! i)) p
        \<and> (\<forall>j<length df. contains (geometry (df ! j)) p \<longrightarrow> j = i)"
  shows "resolvePoint contains df idx p = Inr (Some (cell (df ! i)))"
proof -
  let ?hits = "filter (\<lambda>i. contains (geometry (df ! i)) p) idx"
  have rng: "\<forall>j\<in>set idx. j < length df"
    using sindex_in_range [OF sx] by (simp add: list_all_iff)
  have "i \<in> set idx"
    using candidate_of_containing_row [OF sx env] one by blast
  with one have "i \<in> set ?hits" by simp
  then obtain k ks where hits: "?hits = k # ks"
    by (cases ?hits) auto
  then have "k \<in> set ?hits" by simp
  then have "k \<in> set idx" "contains (geometry (df ! k)) p" by simp_all
  with rng one have "k = i" by blast
  with hits show ?thesis
    by (simp add: resolvePoint_filter [OF sx])
qed

lemma resolvePoint_no_hit:
  assumes sx: "sindex_intersection bounds_hit df idx p"
    and none: "\<forall>r\<in>set df. \<not> contains (geometry r) p"
  shows "resolvePoint contains df idx p = Inr None"
proof -
  have rng: "\<forall>j\<in>set idx. j < length df"
    using sindex_in_range [OF sx] by (simp add: list_all_iff)
  have "\<forall>j\<in>set idx. \<not> contains (geometry (df ! j)) p"
    using rng none by simp
  then have "filter (\<lambda>i. contains (geometry (df ! i)) p) idx = []"
    by (simp add: filter_empty_conv)
  then show ?thesis
    by (simp add: resolvePoint_filter [OF sx])
qed

text \<open>
  C1. Let the spatial index answer, for the point of a click, the rows whose envelope meets
  the point, and let every polygon that contains the point have an envelope that meets
  it. If exactly one row's polygon contains the point, \<open>resolvePoint\<close> gives that row's
  cell id and the click goes on to the selection with it. If no row's polygon contains the
  point, \<open>resolvePoint\<close> gives None and the click changes nothing.
\<close>

theorem resolvePoint_containment:
  "sindex_intersection bounds_hit df (sindex (x, y)) (x, y)
   \<and> envelope_covers contains bounds_hit df (x, y) \<longrightarrow>
     (i < length df \<and> contains (geometry (df ! i)) (x, y)
        \<and> (\<forall>j<length df. contains (geometry (df ! j)) (x, y) \<longrightarrow> j = i)
      \<longrightarrow> resolvePoint contains df (sindex (x, y)) (x, y) = Inr (Some (cell (df ! i)))
        \<and> last_clicked contains sindex df s (Some (y, x))
            = Inr (trySelect (departure_cells df) (destination_cells df) s (cell (df ! i))))
   \<and> ((\<forall>r\<in>set df. \<not> contains (geometry r) (x, y))
      \<longrightarrow> resolvePoint contains df (sindex (x, y)) (x, y) = Inr None
        \<and> last_clicked contains sindex df s (Some (y, x)) = Inr (s, NoAction))"
proof (intro impI conjI)
  assume h: "sindex_intersection bounds_hit df (sindex (x, y)) (x, y)
    \<and> envelope_covers contains bounds_hit df (x, y)"
  then have sx: "sindex_intersection bounds_hit df (sindex (x, y)) (x, y)"
    and env: "envelope_covers contains bounds_hit df (x, y)" by simp_all
  {
    assume one: "i < length df \<and> contains (geometry (df ! i)) (x, y)
        \<and> (\<forall>j<length df. contains (geometry (df ! j)) (x, y) \<longrightarrow> j = i)"
    show r1: "resolvePoint contains df (sindex (x, y)) (x, y) = Inr (Some (cell (df ! i)))"
      using sx env one by (rule resolvePoint_unique_hit)
    show "last_clicked contains sindex df s (Some (y, x))
            = Inr (trySelect (departure_cells df) (destination_cells df) s (cell (df ! i)))"
      by (simp add: last_clicked_def r1)
  }
  {
    assume none: "\<forall>r\<in>set df. \<not> contains (geometry r) (x, y)"
    show r2: "resolvePoint contains df (sindex (x, y)) (x, y) = Inr None"
      using sx none by (rule resolvePoint_no_hit)
    show "last_clicked contains sindex df s (Some (y, x)) = Inr (s, NoAction)"
      by (simp add: last_clicked_def r2)
  }
qed

theorem resolvePoint_containment_witness:
  "sindex_intersection box_bounds_hit scenario_cells [1, 0] (-84, 40)
   \<and> sindex_intersection box_bounds_hit scenario_cells [0] (-85, 40)
   \<and> envelope_covers box_contains box_bounds_hit scenario_cells (-85, 40)
   \<and> box_contains (geometry (scenario_cells ! 0)) (-85, 40)
   \<and> resolvePoint box_contains scenario_cells [0] (-85, 40) = Inr (Some (CStr ''A''))
   \<and> last_clicked box_contains (\<lambda>p. if p = (-85, 40) then [0] else []) scenario_cells
        \<lparr>origin = None, target = None\<rparr> (Some (40, -85))
      = Inr (\<lparr>origin = Some (CStr ''A''), target = None\<rparr>, Rerun)
   \<and> sindex_intersection box_bounds_hit scenario_cells [] (0, 0)
   \<and> envelope_covers box_contains box_bounds_hit scenario_cells (0, 0)
   \<and> resolvePoint box_contains scenario_cells [] (0, 0) = Inr None
   \<and> last_clicked box_contains (\<lambda>p. if p = (-85, 40) then [0] else []) scenario_cells
        \<lparr>origin = None, target = None\<rparr> (Some (0, 0))
      = Inr (\<lparr>origin = None, target = None\<rparr>, NoAction)"
proof -
  let ?sx = "\<lambda>p::real \<times> real. if p = (-85, 40) then [0::nat] else []"
  have a0: "sindex_intersection box_bounds_hit scenario_cells [1, 0] (-84, 40)"
    by (simp add: sindex_intersection_def scenario_cells_def upt_rec insert_commute)
  have a: "sindex_intersection box_bounds_hit scenario_cells (?sx (-85, 40)) (-85, 40)"
    by (simp add: sindex_intersection_def scenario_cells_def upt_rec)
  have b: "envelope_covers box_contains box_bounds_hit scenario_cells (-85, 40)"
    by (simp add: envelope_covers_def scenario_cells_def)
  have c: "0 < length scenario_cells \<and> box_contains (geometry (scenario_cells ! 0)) (-85, 40)
     \<and> (\<forall>j<length scenario_cells. box_contains (geometry (scenario_cells ! j)) (-85, 40) \<longrightarrow> j = 0)"
    by (simp add: scenario_cells_def less_Suc_eq numeral_3_eq_3 all_conj_distrib)
  have d: "sindex_intersection box_bounds_hit scenario_cells (?sx (0, 0)) (0, 0)"
    by (simp add: sindex_intersection_def scenario_cells_def upt_rec)
  have e: "envelope_covers box_contains box_bounds_hit scenario_cells (0, 0)"
    by (simp add: envelope_covers_def scenario_cells_def)
  have f: "\<forall>r\<in>set scenario_cells. \<not> box_contains (geometry r) (0, 0)"
    by (simp add: scenario_cells_def)
  have g: "cell (scenario_cells ! 0) = CStr ''A''"
    by (simp add: scenario_cells_def)
  have t: "trySelect (departure_cells scenario_cells) (destination_cells scenario_cells)
      \<lparr>origin = None, target = None\<rparr> (CStr ''A'')
      = (\<lparr>origin = Some (CStr ''A''), target = None\<rparr>, Rerun)"
    by (simp add: trySelect_def departure_cells_def scenario_cells_def)
  show ?thesis
    using a0 a b c d e f g t
      resolvePoint_containment [of box_bounds_hit scenario_cells ?sx "-85" 40 box_contains 0
        "\<lparr>origin = None, target = None\<rparr>"]
      resolvePoint_containment [of box_bounds_hit scenario_cells ?sx 0 0 box_contains 0
        "\<lparr>origin = None, target = None\<rparr>"]
    by simp
qed

end
